theory Spec2Isabelle
  imports Complex_Main "HOL-Library.Multiset" "HOL-Library.Word"
begin

section \<open>Storage of KPCA results: \<^verbatim>\<open>mlpack::distributed_kpca::KpcaResult\<close>\<close>

text \<open>
  The class of \<^verbatim>\<open>distributed_kpca/kpca_result.h\<close> is embedded operation by operation.
  A \<^verbatim>\<open>double\<close> is a \<^typ>\<open>real\<close>: arithmetic is exact, and rounding, infinities and NaN
  are outside the model. An access outside allocated storage and the use of a null
  \<^verbatim>\<open>FILE*\<close> are undefined behaviour in C++; the model makes each of them an explicit
  error result, at which the operation stops.
\<close>

datatype error =
  Out_Of_Range      \<comment> \<open>an index outside the storage it addresses\<close>
| Null_Stream       \<comment> \<open>a null \<^verbatim>\<open>FILE*\<close> handed to \<^verbatim>\<open>fprintf\<close> or \<^verbatim>\<open>fclose\<close>\<close>
| Archive_Underflow \<comment> \<open>an input archive that does not hold the item being read\<close>

subsection \<open>Dense matrices and vectors\<close>

text \<open>
  \<^verbatim>\<open>arma::mat\<close>: the extent and the elements in one block of memory, column after
  column. Element \<open>(r, c)\<close> lives at offset \<open>r + c * n_rows\<close>; \<^verbatim>\<open>at(r, c)\<close> computes
  the offset and checks nothing.
\<close>

record mat =
  n_rows :: nat
  n_cols :: nat
  mem :: "real list"

definition wf_mat :: "mat \<Rightarrow> bool" where
  "wf_mat m \<longleftrightarrow> length (mem m) = n_rows m * n_cols m"

definition empty_mat :: mat where
  "empty_mat = \<lparr>n_rows = 0, n_cols = 0, mem = []\<rparr>"

definition mat_at :: "mat \<Rightarrow> nat \<Rightarrow> nat \<Rightarrow> error + real" where
  "mat_at m r c =
     (let p = r + c * n_rows m
      in if p < length (mem m) then Inr (mem m ! p) else Inl Out_Of_Range)"

definition mat_at_put :: "mat \<Rightarrow> nat \<Rightarrow> nat \<Rightarrow> real \<Rightarrow> error + mat" where
  "mat_at_put m r c v =
     (let p = r + c * n_rows m
      in if p < length (mem m) then Inr (m\<lparr>mem := (mem m)[p := v]\<rparr>) else Inl Out_Of_Range)"

text \<open>
  \<^verbatim>\<open>set_size\<close> gives the matrix its new extent and leaves the elements unspecified:
  \<open>fresh\<close> is whatever the memory holds afterwards. \<^verbatim>\<open>zeros\<close> overwrites every element.
\<close>

definition set_size :: "(nat \<Rightarrow> real) \<Rightarrow> nat \<Rightarrow> nat \<Rightarrow> mat \<Rightarrow> mat" where
  "set_size fresh r c m = \<lparr>n_rows = r, n_cols = c, mem = map fresh [0..<r * c]\<rparr>"

definition zeros :: "mat \<Rightarrow> mat" where
  "zeros m = m\<lparr>mem := replicate (n_rows m * n_cols m) 0\<rparr>"




text \<open>
  A counted loop \<^verbatim>\<open>for (i = 0; i < n; i++) body\<close> runs the body over \<open>[0..<n]\<close> and
  stops at the first error.
\<close>

fun for_loop :: "nat list \<Rightarrow> (nat \<Rightarrow> 's \<Rightarrow> error + 's) \<Rightarrow> 's \<Rightarrow> error + 's" where
  "for_loop [] body s = Inr s"
| "for_loop (i # is) body s =
     (case body i s of Inl e \<Rightarrow> Inl e | Inr s' \<Rightarrow> for_loop is body s')"

subsection \<open>The result object\<close>

record KpcaResult =
  kpca_projections_l :: mat         \<comment> \<open>\<^verbatim>\<open>kpca_projections_l_\<close>, the lower bound\<close>
  kpca_projections :: mat           \<comment> \<open>\<^verbatim>\<open>kpca_projections_\<close>\<close>
  kpca_projections_u :: mat         \<comment> \<open>\<^verbatim>\<open>kpca_projections_u_\<close>, the upper bound\<close>
  kernel_eigenvalues :: "real list" \<comment> \<open>\<^verbatim>\<open>kernel_eigenvalues_\<close>\<close>
  covariance_eigenvectors :: mat    \<comment> \<open>\<^verbatim>\<open>covariance_eigenvectors_\<close>\<close>
  reference_projections :: mat      \<comment> \<open>\<^verbatim>\<open>reference_projections_\<close>\<close>
  kpca_components :: mat            \<comment> \<open>\<^verbatim>\<open>kpca_components_\<close>\<close>

definition SetZero :: "KpcaResult \<Rightarrow> KpcaResult" where
  "SetZero r =
     r\<lparr>kpca_projections_l := zeros (kpca_projections_l r),
       kpca_projections := zeros (kpca_projections r),
       kpca_projections_u := zeros (kpca_projections_u r)\<rparr>"

text \<open>The default constructor: every member empty, then \<^verbatim>\<open>SetZero\<close>.\<close>

definition KpcaResult_new :: KpcaResult where
  "KpcaResult_new =
     SetZero \<lparr>kpca_projections_l = empty_mat, kpca_projections = empty_mat,
       kpca_projections_u = empty_mat, kernel_eigenvalues = [],
       covariance_eigenvectors = empty_mat, reference_projections = empty_mat,
       kpca_components = empty_mat\<rparr>"

text \<open>
  \<^verbatim>\<open>Init\<close> takes three \<^verbatim>\<open>int\<close>s; \<^verbatim>\<open>set_size\<close> takes unsigned words, so each argument
  is converted on the way in (\<^term>\<open>unat\<close> of the same 32 bits). The second
  argument is not used. Allocation is taken to succeed.
\<close>

definition Init :: "(nat \<Rightarrow> real) \<Rightarrow> 32 word \<Rightarrow> 32 word \<Rightarrow> 32 word \<Rightarrow> KpcaResult \<Rightarrow> KpcaResult" where
  "Init fresh num_components num_reference_points query_points r =
     SetZero
       (r\<lparr>kpca_projections_l :=
            set_size fresh (unat num_components) (unat query_points) (kpca_projections_l r),
          kpca_projections :=
            set_size fresh (unat num_components) (unat query_points) (kpca_projections r),
          kpca_projections_u :=
            set_size fresh (unat num_components) (unat query_points) (kpca_projections_u r)\<rparr>)"

definition all_zero :: "nat \<Rightarrow> nat \<Rightarrow> mat \<Rightarrow> bool" where
  "all_zero C Q m \<longleftrightarrow>
     n_rows m = C \<and> n_cols m = Q \<and> mem m = replicate (C * Q) 0 \<and>
     (\<forall>k<C. \<forall>i<Q. mat_at m k i = Inr 0)"

subsection \<open>The kernel-sum statistics\<close>

text \<open>
  Modelled from the spec: \<^verbatim>\<open>core::monte_carlo::MeanVariancePairMatrix\<close> (the header
  \<^verbatim>\<open>core/monte_carlo/mean_variance_pair_matrix.h\<close> is not among the sources). The spec
  describes a container addressable by (component, query-point) pairs that exposes a
  mean and a variance of the mean for each pair; \<open>get\<close> has an out-of-range branch
  for a pair outside the container's extent.
\<close>

record MeanVariancePair =
  sample_mean :: real
  sample_mean_variance :: real

record MeanVariancePairMatrix =
  mv_n_rows :: nat
  mv_n_cols :: nat
  mv_cell :: "nat \<Rightarrow> nat \<Rightarrow> MeanVariancePair"

definition get :: "MeanVariancePairMatrix \<Rightarrow> nat \<Rightarrow> nat \<Rightarrow> error + MeanVariancePair" where
  "get ks k i =
     (if k < mv_n_rows ks \<and> i < mv_n_cols ks then Inr (mv_cell ks k i) else Inl Out_Of_Range)"

subsection \<open>Export\<close>

text \<open>
  The body of the inner loop of \<^verbatim>\<open>Export\<close>, for query point \<open>i\<close> and component \<open>k\<close>:
  the deviation, then the three stores in the order of the source.
\<close>

definition Export_cell ::
  "real \<Rightarrow> real \<Rightarrow> real \<Rightarrow> MeanVariancePairMatrix \<Rightarrow> nat \<Rightarrow> nat \<Rightarrow> KpcaResult
     \<Rightarrow> error + KpcaResult" where
  "Export_cell num_standard_deviations mult_const correction_term_in kernel_sum i k r =
     (case get kernel_sum k i of
        Inl e \<Rightarrow> Inl e
      | Inr p \<Rightarrow>
          let deviation = num_standard_deviations * sqrt (sample_mean_variance p)
          in case mat_at_put (kpca_projections_l r) k i
                    ((sample_mean p - correction_term_in - deviation) * mult_const) of
               Inl e \<Rightarrow> Inl e
             | Inr l' \<Rightarrow>
                 (case mat_at_put (kpca_projections r) k i
                         ((sample_mean p - correction_term_in) * mult_const) of
                    Inl e \<Rightarrow> Inl e
                  | Inr c' \<Rightarrow>
                      (case mat_at_put (kpca_projections_u r) k i
                              ((sample_mean p - correction_term_in + deviation) * mult_const) of
                         Inl e \<Rightarrow> Inl e
                       | Inr u' \<Rightarrow>
                           Inr (r\<lparr>kpca_projections_l := l', kpca_projections := c',
                                  kpca_projections_u := u'\<rparr>))))"

text \<open>
  The loops: query points outside, components inside. Both bounds are read from
  \<^verbatim>\<open>kpca_projections_\<close>, whose extent the body never changes.
\<close>

definition Export ::
  "real \<Rightarrow> real \<Rightarrow> real \<Rightarrow> MeanVariancePairMatrix \<Rightarrow> KpcaResult \<Rightarrow> error + KpcaResult" where
  "Export num_standard_deviations mult_const correction_term_in kernel_sum r =
     for_loop [0..<n_cols (kpca_projections r)]
       (\<lambda>i. for_loop [0..<n_rows (kpca_projections r)]
          (Export_cell num_standard_deviations mult_const correction_term_in kernel_sum i))
       r"

text \<open>
  The three bound matrices are allocated together (by \<^const>\<open>Init\<close> or by the
  constructor): each holds \<open>n_rows * n_cols\<close> elements, and they share one extent.
\<close>

definition bounds_allocated :: "KpcaResult \<Rightarrow> bool" where
  "bounds_allocated r \<longleftrightarrow>
     wf_mat (kpca_projections_l r) \<and> wf_mat (kpca_projections r) \<and> wf_mat (kpca_projections_u r) \<and>
     n_rows (kpca_projections_l r) = n_rows (kpca_projections r) \<and>
     n_cols (kpca_projections_l r) = n_cols (kpca_projections r) \<and>
     n_rows (kpca_projections_u r) = n_rows (kpca_projections r) \<and>
     n_cols (kpca_projections_u r) = n_cols (kpca_projections r)"

text \<open>
  The extent of the statistics covers the \<open>R \<times> Q\<close> extent of the result: every pair
  \<open>(k, i)\<close> with \<open>k < R\<close> and \<open>i < Q\<close> is a pair of the container. (There is no such
  pair when \<open>R\<close> or \<open>Q\<close> is zero.)
\<close>

definition covers :: "MeanVariancePairMatrix \<Rightarrow> mat \<Rightarrow> bool" where
  "covers ks m \<longleftrightarrow>
     n_rows m = 0 \<or> n_cols m = 0 \<or> (n_rows m \<le> mv_n_rows ks \<and> n_cols m \<le> mv_n_cols ks)"

text \<open>
  Two auxiliary predicates for the loops of \<open>Export\<close>: the element \<open>(k, i)\<close> of each
  bound matrix holds the value \<open>Export\<close> computes for it, and a state differs from the
  initial one in the elements of the bound matrices only.
\<close>

definition cell_ok :: "real \<Rightarrow> real \<Rightarrow> real \<Rightarrow> MeanVariancePairMatrix \<Rightarrow> KpcaResult \<Rightarrow> nat \<Rightarrow> nat \<Rightarrow> bool" where
  "cell_ok nsd mc ct ks r k i \<longleftrightarrow>
     mat_at (kpca_projections_l r) k i =
       Inr ((sample_mean (mv_cell ks k i) - ct - nsd * sqrt (sample_mean_variance (mv_cell ks k i))) * mc) \<and>
     mat_at (kpca_projections r) k i = Inr ((sample_mean (mv_cell ks k i) - ct) * mc) \<and>
     mat_at (kpca_projections_u r) k i =
       Inr ((sample_mean (mv_cell ks k i) - ct + nsd * sqrt (sample_mean_variance (mv_cell ks k i))) * mc)"

definition same_frame :: "KpcaResult \<Rightarrow> KpcaResult \<Rightarrow> bool" where
  "same_frame r r' \<longleftrightarrow>
     bounds_allocated r' \<and>
     n_rows (kpca_projections r') = n_rows (kpca_projections r) \<and>
     n_cols (kpca_projections r') = n_cols (kpca_projections r) \<and>
     kernel_eigenvalues r' = kernel_eigenvalues r \<and>
     covariance_eigenvectors r' = covariance_eigenvectors r \<and>
     reference_projections r' = reference_projections r \<and>
     kpca_components r' = kpca_components r"

text \<open>
  The order of two bound matrices at the element \<open>(k, i)\<close>: both elements are there, and
  the first is at most the second.
\<close>

definition le_at :: "mat \<Rightarrow> mat \<Rightarrow> nat \<Rightarrow> nat \<Rightarrow> bool" where
  "le_at a b k i =
     (case mat_at a k i of
        Inl e \<Rightarrow> False
      | Inr x \<Rightarrow> (case mat_at b k i of Inl e \<Rightarrow> False | Inr y \<Rightarrow> x \<le> y))"

text \<open>The statistics of the scenario: two components, one query point.\<close>

definition scenario_stats :: MeanVariancePairMatrix where
  "scenario_stats =
     \<lparr>mv_n_rows = 2, mv_n_cols = 1,
      mv_cell = (\<lambda>k i. if k = 0 then \<lparr>sample_mean = 10, sample_mean_variance = 4\<rparr>
                        else \<lparr>sample_mean = 20, sample_mean_variance = 1\<rparr>)\<rparr>"

subsection \<open>Print\<close>

text \<open>
  The files: contents by path. \<open>openable\<close> tells the paths \<^verbatim>\<open>fopen\<close> can open for
  writing. A \<^verbatim>\<open>FILE*\<close> is the path it was opened on, \<open>None\<close> being the null pointer
  that a failed \<^verbatim>\<open>fopen\<close> returns. Mode \<^verbatim>\<open>"w+"\<close> creates the file or empties it.
  \<^verbatim>\<open>fprintf\<close> appends; the return values of \<^verbatim>\<open>fprintf\<close> and \<^verbatim>\<open>fclose\<close> are ignored by
  the source, and writing to an open stream is taken to succeed.
\<close>

type_synonym files = "string \<Rightarrow> string option"

definition fopen_w :: "(string \<Rightarrow> bool) \<Rightarrow> string \<Rightarrow> files \<Rightarrow> string option \<times> files" where
  "fopen_w openable path fs = (if openable path then (Some path, fs(path \<mapsto> [])) else (None, fs))"

definition fprintf :: "string option \<Rightarrow> string \<Rightarrow> files \<Rightarrow> error + files" where
  "fprintf stream text fs =
     (case stream of
        None \<Rightarrow> Inl Null_Stream
      | Some path \<Rightarrow> Inr (fs(path \<mapsto> (case fs path of None \<Rightarrow> [] | Some old \<Rightarrow> old) @ text)))"

definition fclose :: "string option \<Rightarrow> files \<Rightarrow> error + files" where
  "fclose stream fs = (case stream of None \<Rightarrow> Inl Null_Stream | Some path \<Rightarrow> Inr fs)"

text \<open>
  Both halves of \<^verbatim>\<open>Print\<close> are the same pair of loops: for each column, every
  element of the column followed by a blank, then a line break. \<open>fmt\<close> is the
  conversion \<^verbatim>\<open>%g\<close>.
\<close>

definition print_columns :: "(real \<Rightarrow> string) \<Rightarrow> mat \<Rightarrow> string option \<Rightarrow> files \<Rightarrow> error + files" where
  "print_columns fmt m file_output fs =
     for_loop [0..<n_cols m]
       (\<lambda>i fs. case for_loop [0..<n_rows m]
                       (\<lambda>j fs. case mat_at m j i of
                                  Inl e \<Rightarrow> Inl e
                                | Inr v \<Rightarrow> fprintf file_output (fmt v @ '' '') fs)
                       fs of
                  Inl e \<Rightarrow> Inl e
                | Inr fs' \<Rightarrow> fprintf file_output [CHR 0x0A] fs')
       fs"

definition Print ::
  "(string \<Rightarrow> bool) \<Rightarrow> (real \<Rightarrow> string) \<Rightarrow> string \<Rightarrow> string \<Rightarrow> KpcaResult \<Rightarrow> files
     \<Rightarrow> error + files" where
  "Print openable fmt kpca_components_file_name kpca_projections_file_name r fs =
     (case fopen_w openable kpca_projections_file_name fs of
        (file_output, fs1) \<Rightarrow>
          (case print_columns fmt (kpca_projections r) file_output fs1 of
             Inl e \<Rightarrow> Inl e
           | Inr fs2 \<Rightarrow>
               (case fclose file_output fs2 of
                  Inl e \<Rightarrow> Inl e
                | Inr fs3 \<Rightarrow>
                    (case fopen_w openable kpca_components_file_name fs3 of
                       (file_output, fs4) \<Rightarrow>
                         (case print_columns fmt (kpca_components r) file_output fs4 of
                            Inl e \<Rightarrow> Inl e
                          | Inr fs5 \<Rightarrow> fclose file_output fs5)))))"

subsection \<open>Serialization\<close>

text \<open>
  Modelled from the spec: the archive and the encoding of one member (the archive
  classes and the \<^verbatim>\<open>&\<close> operator for matrices are not among the sources). The spec
  describes each member as a self-describing dense encoding: row count, column count,
  values. An archive is the sequence of the primitive items written; saving appends,
  loading takes items from the front.
\<close>

datatype item = Count nat | Value real

type_synonym archive = "item list"

definition save_mat :: "mat \<Rightarrow> archive \<Rightarrow> archive" where
  "save_mat m ar = ar @ Count (n_rows m) # Count (n_cols m) # map Value (mem m)"

definition save_vec :: "real list \<Rightarrow> archive \<Rightarrow> archive" where
  "save_vec v ar = ar @ Count (length v) # map Value v"

fun load_values :: "nat \<Rightarrow> archive \<Rightarrow> error + (real list \<times> archive)" where
  "load_values 0 ar = Inr ([], ar)"
| "load_values (Suc n) (Value v # ar) =
     (case load_values n ar of Inl e \<Rightarrow> Inl e | Inr (vs, ar') \<Rightarrow> Inr (v # vs, ar'))"
| "load_values (Suc n) ar = Inl Archive_Underflow"

definition load_mat :: "archive \<Rightarrow> error + (mat \<times> archive)" where
  "load_mat ar =
     (case ar of
        Count r # Count c # ar' \<Rightarrow>
          (case load_values (r * c) ar' of
             Inl e \<Rightarrow> Inl e
           | Inr (vs, ar'') \<Rightarrow> Inr (\<lparr>n_rows = r, n_cols = c, mem = vs\<rparr>, ar''))
      | _ \<Rightarrow> Inl Archive_Underflow)"

definition load_vec :: "archive \<Rightarrow> error + (real list \<times> archive)" where
  "load_vec ar =
     (case ar of
        Count n # ar' \<Rightarrow> load_values n ar'
      | _ \<Rightarrow> Inl Archive_Underflow)"

text \<open>
  \<^verbatim>\<open>serialize\<close> is one template for both directions; \<^verbatim>\<open>ar & x\<close> writes \<open>x\<close> to an
  output archive and reads \<open>x\<close> from an input archive. Its two instances, the members
  in the order of the source:
\<close>

definition serialize_save :: "KpcaResult \<Rightarrow> archive \<Rightarrow> archive" where
  "serialize_save r ar =
     (let ar = save_mat (kpca_projections_l r) ar;
          ar = save_mat (kpca_projections r) ar;
          ar = save_mat (kpca_projections_u r) ar;
          ar = save_vec (kernel_eigenvalues r) ar;
          ar = save_mat (covariance_eigenvectors r) ar
      in ar)"

definition serialize_load :: "KpcaResult \<Rightarrow> archive \<Rightarrow> error + (KpcaResult \<times> archive)" where
  "serialize_load r ar =
     (case load_mat ar of
        Inl e \<Rightarrow> Inl e
      | Inr (l, ar) \<Rightarrow>
     (case load_mat ar of
        Inl e \<Rightarrow> Inl e
      | Inr (c, ar) \<Rightarrow>
     (case load_mat ar of
        Inl e \<Rightarrow> Inl e
      | Inr (u, ar) \<Rightarrow>
     (case load_vec ar of
        Inl e \<Rightarrow> Inl e
      | Inr (ev, ar) \<Rightarrow>
     (case load_mat ar of
        Inl e \<Rightarrow> Inl e
      | Inr (cov, ar) \<Rightarrow>
          Inr (r\<lparr>kpca_projections_l := l, kpca_projections := c, kpca_projections_u := u,
                 kernel_eigenvalues := ev, covariance_eigenvectors := cov\<rparr>, ar))))))"

subsection \<open>The eigendecomposition results\<close>








text \<open>
  Further inputs used in examples: memory that happens to hold zeros, a file system
  without files, and the paths that can be opened given as a list.
\<close>

definition blank :: "nat \<Rightarrow> real" where
  "blank n = 0"

definition no_files :: files where
  "no_files = (\<lambda>path. None)"

definition uniform_stats :: "nat \<Rightarrow> nat \<Rightarrow> real \<Rightarrow> real \<Rightarrow> MeanVariancePairMatrix" where
  "uniform_stats R Q m v =
     \<lparr>mv_n_rows = R, mv_n_cols = Q,
      mv_cell = (\<lambda>k i. \<lparr>sample_mean = m, sample_mean_variance = v\<rparr>)\<rparr>"

definition emission_example :: KpcaResult where
  "emission_example =
     KpcaResult_new\<lparr>kpca_projections := \<lparr>n_rows = 1, n_cols = 1, mem = [5]\<rparr>,
                    kpca_components := \<lparr>n_rows = 1, n_cols = 1, mem = [7]\<rparr>\<rparr>"

definition can_open :: "string list \<Rightarrow> string \<Rightarrow> bool" where
  "can_open paths p \<longleftrightarrow> p \<in> set paths"

text \<open>A stand-in for \<^verbatim>\<open>%g\<close> on the two values that the example prints.\<close>

definition digit_fmt :: "real \<Rightarrow> string" where
  "digit_fmt v = (if v = 5 then ''5'' else ''7'')"

definition populated_example :: KpcaResult where
  "populated_example =
     \<lparr>kpca_projections_l = \<lparr>n_rows = 2, n_cols = 1, mem = [6, 18]\<rparr>,
      kpca_projections = \<lparr>n_rows = 2, n_cols = 1, mem = [10, 20]\<rparr>,
      kpca_projections_u = \<lparr>n_rows = 2, n_cols = 1, mem = [14, 22]\<rparr>,
      kernel_eigenvalues = [9, 3],
      covariance_eigenvectors = \<lparr>n_rows = 2, n_cols = 2, mem = [3, 4, 1, 2]\<rparr>,
      reference_projections = \<lparr>n_rows = 1, n_cols = 2, mem = [8, 9]\<rparr>,
      kpca_components = \<lparr>n_rows = 1, n_cols = 1, mem = [7]\<rparr>\<rparr>"

section \<open>Matrix access\<close>

lemma offset_less:
  fixes r c R C :: nat
  assumes "r < R" "c < C"
  shows "r + c * R < R * C"
proof -
  have "r + c * R < R + c * R" using assms by simp
  also have "\<dots> = (Suc c) * R" by simp
  also have "\<dots> \<le> C * R" using assms by (intro mult_le_mono1) simp
  finally show ?thesis by (simp add: mult.commute)
qed

lemma offset_inj:
  fixes r c r' c' R :: nat
  assumes "r < R" "r' < R" "r + c * R = r' + c' * R"
  shows "r = r' \<and> c = c'"
proof -
  have "r = (r + c * R) mod R" using assms(1) by simp
  also have "\<dots> = (r' + c' * R) mod R" by (simp only: assms(3))
  also have "\<dots> = r'" using assms(2) by simp
  finally have r: "r = r'" .
  with assms have "c * R = c' * R" by simp
  then show ?thesis using r assms by simp
qed

lemma mat_at_zeros:
  assumes "k < n_rows m" "i < n_cols m"
  shows "mat_at (zeros m) k i = Inr 0"
  using offset_less [OF assms] by (simp add: mat_at_def zeros_def)

lemma mat_at_put_ok:
  assumes "wf_mat m" "k < n_rows m" "i < n_cols m"
  shows "\<exists>m'. mat_at_put m k i v = Inr m' \<and> wf_mat m' \<and> n_rows m' = n_rows m \<and> n_cols m' = n_cols m
           \<and> mat_at m' k i = Inr v
           \<and> (\<forall>k' i'. k' < n_rows m \<longrightarrow> (k', i') \<noteq> (k, i) \<longrightarrow> mat_at m' k' i' = mat_at m k' i')"
proof -
  let ?p = "k + i * n_rows m"
  have p: "?p < length (mem m)"
    using offset_less [OF assms(2,3)] assms(1) by (simp add: wf_mat_def)
  let ?m' = "m\<lparr>mem := (mem m)[?p := v]\<rparr>"
  have put: "mat_at_put m k i v = Inr ?m'"
    using p by (simp add: mat_at_put_def)
  have other: "mat_at ?m' k' i' = mat_at m k' i'" if "k' < n_rows m" "(k', i') \<noteq> (k, i)" for k' i'
  proof -
    have "k' + i' * n_rows m \<noteq> ?p"
      using offset_inj [OF that(1) assms(2), of i' i] that(2) by auto
    then show ?thesis by (simp add: mat_at_def Let_def)
  qed
  have "wf_mat ?m'" using assms(1) by (simp add: wf_mat_def)
  moreover have "mat_at ?m' k i = Inr v" using p by (simp add: mat_at_def)
  ultimately show ?thesis using put other by auto
qed

section \<open>Counted loops\<close>

lemma for_loop_inv_aux:
  assumes "P ys s"
    and "\<And>zs i s. P zs s \<Longrightarrow> i \<in> set xs \<Longrightarrow> \<exists>s'. body i s = Inr s' \<and> P (zs @ [i]) s'"
  shows "\<exists>s'. for_loop xs body s = Inr s' \<and> P (ys @ xs) s'"
  using assms
proof (induction xs arbitrary: ys s)
  case Nil
  then show ?case by simp
next
  case (Cons x xs)
  from Cons.prems(2) [OF Cons.prems(1), of x]
  obtain s1 where s1: "body x s = Inr s1" "P (ys @ [x]) s1" by auto
  have "\<exists>s'. for_loop xs body s1 = Inr s' \<and> P ((ys @ [x]) @ xs) s'"
    by (rule Cons.IH [OF s1(2)]) (use Cons.prems(2) in auto)
  then show ?case using s1(1) by simp
qed

lemma for_loop_inv:
  assumes "P [] s"
    and "\<And>zs i s. P zs s \<Longrightarrow> i \<in> set xs \<Longrightarrow> \<exists>s'. body i s = Inr s' \<and> P (zs @ [i]) s'"
  shows "\<exists>s'. for_loop xs body s = Inr s' \<and> P xs s'"
  using for_loop_inv_aux [of P "[]" s xs body] assms by simp

lemma for_loop_cases:
  assumes "I s"
    and "\<And>i s. i \<in> set xs \<Longrightarrow> I s \<Longrightarrow> body i s = Inl e \<or> (\<exists>s'. body i s = Inr s' \<and> I s')"
  shows "for_loop xs body s = Inl e \<or> (\<exists>s'. for_loop xs body s = Inr s' \<and> I s')"
  using assms
proof (induction xs arbitrary: s)
  case Nil
  then show ?case by simp
next
  case (Cons x xs)
  from Cons.prems(2) [of x s] Cons.prems(1)
  consider "body x s = Inl e" | s1 where "body x s = Inr s1" "I s1" by auto
  then show ?case
  proof cases
    case 1
    then show ?thesis by simp
  next
    case 2
    have "for_loop xs body s1 = Inl e \<or> (\<exists>s'. for_loop xs body s1 = Inr s' \<and> I s')"
      by (rule Cons.IH [OF 2(2)]) (use Cons.prems(2) in auto)
    then show ?thesis using 2(1) by simp
  qed
qed

lemma for_loop_fails:
  assumes "I s" "j \<in> set xs"
    and "\<And>s. I s \<Longrightarrow> body j s = Inl e"
    and "\<And>i s. i \<in> set xs \<Longrightarrow> I s \<Longrightarrow> body i s = Inl e \<or> (\<exists>s'. body i s = Inr s' \<and> I s')"
  shows "for_loop xs body s = Inl e"
  using assms
proof (induction xs arbitrary: s)
  case Nil
  then show ?case by simp
next
  case (Cons x xs)
  from Cons.prems(4) [of x s] Cons.prems(1)
  consider "body x s = Inl e" | s1 where "body x s = Inr s1" "I s1" by auto
  then show ?case
  proof cases
    case 1
    then show ?thesis by simp
  next
    case 2
    have "j \<noteq> x" using 2(1) Cons.prems(3) [OF Cons.prems(1)] by auto
    then have j: "j \<in> set xs" using Cons.prems(2) by simp
    have "for_loop xs body s1 = Inl e"
      by (rule Cons.IH [OF 2(2) j]) (use Cons.prems(3,4) in auto)
    then show ?thesis using 2(1) by simp
  qed
qed


section \<open>The loops of Export\<close>

lemma Export_cell_ok:
  assumes "same_frame r s" "k < n_rows (kpca_projections r)" "i < n_cols (kpca_projections r)"
    and "k < mv_n_rows ks" "i < mv_n_cols ks"
  shows "\<exists>s'. Export_cell nsd mc ct ks i k s = Inr s' \<and> same_frame r s' \<and> cell_ok nsd mc ct ks s' k i
           \<and> (\<forall>k' i'. k' < n_rows (kpca_projections r) \<longrightarrow> cell_ok nsd mc ct ks s k' i'
                  \<longrightarrow> cell_ok nsd mc ct ks s' k' i')"
proof -
  let ?p = "mv_cell ks k i"
  let ?d = "nsd * sqrt (sample_mean_variance ?p)"
  have g: "get ks k i = Inr ?p" using assms(4,5) by (simp add: get_def)
  have fr: "bounds_allocated s" "n_rows (kpca_projections s) = n_rows (kpca_projections r)"
    "n_cols (kpca_projections s) = n_cols (kpca_projections r)"
    using assms(1) by (simp_all add: same_frame_def)
  have kl: "k < n_rows (kpca_projections_l s)" "i < n_cols (kpca_projections_l s)"
    "k < n_rows (kpca_projections s)" "i < n_cols (kpca_projections s)"
    "k < n_rows (kpca_projections_u s)" "i < n_cols (kpca_projections_u s)"
    "wf_mat (kpca_projections_l s)" "wf_mat (kpca_projections s)" "wf_mat (kpca_projections_u s)"
    using fr assms(2,3) by (simp_all add: bounds_allocated_def)
  obtain l' where l': "mat_at_put (kpca_projections_l s) k i ((sample_mean ?p - ct - ?d) * mc) = Inr l'"
    "wf_mat l'" "n_rows l' = n_rows (kpca_projections_l s)" "n_cols l' = n_cols (kpca_projections_l s)"
    "mat_at l' k i = Inr ((sample_mean ?p - ct - ?d) * mc)"
    "\<And>k' i'. k' < n_rows (kpca_projections_l s) \<Longrightarrow> (k', i') \<noteq> (k, i)
        \<Longrightarrow> mat_at l' k' i' = mat_at (kpca_projections_l s) k' i'"
    using mat_at_put_ok [OF kl(7) kl(1) kl(2), of "(sample_mean ?p - ct - ?d) * mc"] by blast
  obtain c' where c': "mat_at_put (kpca_projections s) k i ((sample_mean ?p - ct) * mc) = Inr c'"
    "wf_mat c'" "n_rows c' = n_rows (kpca_projections s)" "n_cols c' = n_cols (kpca_projections s)"
    "mat_at c' k i = Inr ((sample_mean ?p - ct) * mc)"
    "\<And>k' i'. k' < n_rows (kpca_projections s) \<Longrightarrow> (k', i') \<noteq> (k, i)
        \<Longrightarrow> mat_at c' k' i' = mat_at (kpca_projections s) k' i'"
    using mat_at_put_ok [OF kl(8) kl(3) kl(4), of "(sample_mean ?p - ct) * mc"] by blast
  obtain u' where u': "mat_at_put (kpca_projections_u s) k i ((sample_mean ?p - ct + ?d) * mc) = Inr u'"
    "wf_mat u'" "n_rows u' = n_rows (kpca_projections_u s)" "n_cols u' = n_cols (kpca_projections_u s)"
    "mat_at u' k i = Inr ((sample_mean ?p - ct + ?d) * mc)"
    "\<And>k' i'. k' < n_rows (kpca_projections_u s) \<Longrightarrow> (k', i') \<noteq> (k, i)
        \<Longrightarrow> mat_at u' k' i' = mat_at (kpca_projections_u s) k' i'"
    using mat_at_put_ok [OF kl(9) kl(5) kl(6), of "(sample_mean ?p - ct + ?d) * mc"] by blast
  let ?s' = "s\<lparr>kpca_projections_l := l', kpca_projections := c', kpca_projections_u := u'\<rparr>"
  have run: "Export_cell nsd mc ct ks i k s = Inr ?s'"
    by (simp add: Export_cell_def g l'(1) c'(1) u'(1))
  have frame: "same_frame r ?s'"
    using assms(1) l'(2,3,4) c'(2,3,4) u'(2,3,4)
    by (simp add: same_frame_def bounds_allocated_def)
  have here: "cell_ok nsd mc ct ks ?s' k i"
    by (simp add: cell_ok_def l'(5) c'(5) u'(5))
  have keep: "cell_ok nsd mc ct ks ?s' k' i'"
    if "k' < n_rows (kpca_projections r)" "cell_ok nsd mc ct ks s k' i'" for k' i'
  proof (cases "(k', i') = (k, i)")
    case True
    then show ?thesis using here by simp
  next
    case False
    have "k' < n_rows (kpca_projections_l s)" "k' < n_rows (kpca_projections s)"
      "k' < n_rows (kpca_projections_u s)"
      using that(1) fr by (simp_all add: bounds_allocated_def)
    then have "mat_at l' k' i' = mat_at (kpca_projections_l s) k' i'"
      "mat_at c' k' i' = mat_at (kpca_projections s) k' i'"
      "mat_at u' k' i' = mat_at (kpca_projections_u s) k' i'"
      using False l'(6) c'(6) u'(6) by blast+
    then show ?thesis using that(2) by (simp add: cell_ok_def)
  qed
  show ?thesis using run frame here keep by blast
qed

lemma covers_iff:
  "covers ks m \<longleftrightarrow> (\<forall>k<n_rows m. \<forall>i<n_cols m. k < mv_n_rows ks \<and> i < mv_n_cols ks)"
proof
  assume "covers ks m"
  then show "\<forall>k<n_rows m. \<forall>i<n_cols m. k < mv_n_rows ks \<and> i < mv_n_cols ks"
    by (auto simp: covers_def)
next
  assume a: "\<forall>k<n_rows m. \<forall>i<n_cols m. k < mv_n_rows ks \<and> i < mv_n_cols ks"
  show "covers ks m"
  proof (cases "n_rows m = 0 \<or> n_cols m = 0")
    case True
    then show ?thesis by (auto simp: covers_def)
  next
    case False
    then have "n_rows m - 1 < n_rows m" "n_cols m - 1 < n_cols m" by simp_all
    with a have "n_rows m - 1 < mv_n_rows ks" "n_cols m - 1 < mv_n_cols ks" by blast+
    then show ?thesis using False by (auto simp: covers_def)
  qed
qed

lemma Export_column_ok:
  assumes "same_frame r s" "i < n_cols (kpca_projections r)"
    and "\<forall>k<n_rows (kpca_projections r). k < mv_n_rows ks \<and> i < mv_n_cols ks"
  shows "\<exists>s'. for_loop [0..<n_rows (kpca_projections r)] (Export_cell nsd mc ct ks i) s = Inr s'
           \<and> same_frame r s'
           \<and> (\<forall>k' i'. k' < n_rows (kpca_projections r) \<longrightarrow> cell_ok nsd mc ct ks s k' i'
                  \<longrightarrow> cell_ok nsd mc ct ks s' k' i')
           \<and> (\<forall>k<n_rows (kpca_projections r). cell_ok nsd mc ct ks s' k i)"
proof -
  let ?R = "n_rows (kpca_projections r)"
  define P where "P done t \<longleftrightarrow> same_frame r t
      \<and> (\<forall>k' i'. k' < ?R \<longrightarrow> cell_ok nsd mc ct ks s k' i' \<longrightarrow> cell_ok nsd mc ct ks t k' i')
      \<and> (\<forall>k\<in>set done. k < ?R \<longrightarrow> cell_ok nsd mc ct ks t k i)" for "done" t
  have init: "P [] s" using assms(1) by (simp add: P_def)
  have step: "\<exists>t'. Export_cell nsd mc ct ks i k t = Inr t' \<and> P (zs @ [k]) t'"
    if "P zs t" "k \<in> set [0..<?R]" for zs k t
  proof -
    have k: "k < ?R" using that(2) by simp
    then have kk: "k < mv_n_rows ks" "i < mv_n_cols ks" using assms(3) by blast+
    have fr: "same_frame r t" using that(1) by (simp add: P_def)
    obtain t' where t': "Export_cell nsd mc ct ks i k t = Inr t'" "same_frame r t'"
      "cell_ok nsd mc ct ks t' k i"
      "\<And>k' i'. k' < ?R \<Longrightarrow> cell_ok nsd mc ct ks t k' i' \<Longrightarrow> cell_ok nsd mc ct ks t' k' i'"
      using Export_cell_ok [OF fr k assms(2) kk, of nsd mc ct] by blast
    have "P (zs @ [k]) t'"
      unfolding P_def
    proof (intro conjI allI impI ballI)
      show "same_frame r t'" by (rule t'(2))
    next
      fix k' i' assume "k' < ?R" "cell_ok nsd mc ct ks s k' i'"
      then show "cell_ok nsd mc ct ks t' k' i'" using that(1) t'(4) by (simp add: P_def)
    next
      fix j assume j: "j \<in> set (zs @ [k])" "j < ?R"
      then consider "j = k" | "j \<in> set zs" by auto
      then show "cell_ok nsd mc ct ks t' j i"
      proof cases
        case 1
        then show ?thesis using t'(3) by simp
      next
        case 2
        then have "cell_ok nsd mc ct ks t j i" using that(1) j(2) by (simp add: P_def)
        then show ?thesis using t'(4) j(2) by blast
      qed
    qed
    then show ?thesis using t'(1) by blast
  qed
  obtain s' where "for_loop [0..<?R] (Export_cell nsd mc ct ks i) s = Inr s'" "P [0..<?R] s'"
    using for_loop_inv [of P s "[0..<?R]" "Export_cell nsd mc ct ks i", OF init step] by blast
  then show ?thesis by (auto simp: P_def)
qed

lemma Export_ok:
  assumes "bounds_allocated r" "covers ks (kpca_projections r)"
  shows "\<exists>r'. Export nsd mc ct ks r = Inr r' \<and> same_frame r r'
           \<and> (\<forall>k<n_rows (kpca_projections r). \<forall>i<n_cols (kpca_projections r).
                  cell_ok nsd mc ct ks r' k i)"
proof -
  let ?R = "n_rows (kpca_projections r)"
  let ?Q = "n_cols (kpca_projections r)"
  let ?body = "\<lambda>i. for_loop [0..<?R] (Export_cell nsd mc ct ks i)"
  define P where "P done t \<longleftrightarrow> same_frame r t
      \<and> (\<forall>i\<in>set done. \<forall>k<?R. cell_ok nsd mc ct ks t k i)" for "done" t
  have cov: "\<forall>k<?R. \<forall>i<?Q. k < mv_n_rows ks \<and> i < mv_n_cols ks"
    using assms(2) by (simp add: covers_iff)
  have init: "P [] r" using assms(1) by (simp add: P_def same_frame_def)
  have step: "\<exists>t'. ?body i t = Inr t' \<and> P (zs @ [i]) t'"
    if "P zs t" "i \<in> set [0..<?Q]" for zs i t
  proof -
    have i: "i < ?Q" using that(2) by simp
    have fr: "same_frame r t" using that(1) by (simp add: P_def)
    have c: "\<forall>k<?R. k < mv_n_rows ks \<and> i < mv_n_cols ks" using cov i by blast
    obtain t' where t': "?body i t = Inr t'" "same_frame r t'"
      "\<And>k' i'. k' < ?R \<Longrightarrow> cell_ok nsd mc ct ks t k' i' \<Longrightarrow> cell_ok nsd mc ct ks t' k' i'"
      "\<And>k. k < ?R \<Longrightarrow> cell_ok nsd mc ct ks t' k i"
      using Export_column_ok [OF fr i c, of nsd mc ct] by blast
    have "P (zs @ [i]) t'"
      unfolding P_def
    proof (intro conjI allI impI ballI)
      show "same_frame r t'" by (rule t'(2))
    next
      fix j k assume j: "j \<in> set (zs @ [i])" "k < ?R"
      then consider "j = i" | "j \<in> set zs" by auto
      then show "cell_ok nsd mc ct ks t' k j"
      proof cases
        case 1
        then show ?thesis using t'(4) j(2) by simp
      next
        case 2
        then have "cell_ok nsd mc ct ks t k j" using that(1) j(2) by (simp add: P_def)
        then show ?thesis using t'(3) j(2) by blast
      qed
    qed
    then show ?thesis using t'(1) by blast
  qed
  obtain r' where "for_loop [0..<?Q] ?body r = Inr r'" "P [0..<?Q] r'"
    using for_loop_inv [of P r "[0..<?Q]" ?body, OF init step] by blast
  then show ?thesis by (auto simp: P_def Export_def)
qed

lemma Export_cell_cases:
  assumes "same_frame r s" "k < n_rows (kpca_projections r)" "i < n_cols (kpca_projections r)"
  shows "Export_cell nsd mc ct ks i k s = Inl Out_Of_Range
       \<or> (\<exists>s'. Export_cell nsd mc ct ks i k s = Inr s' \<and> same_frame r s')"
proof (cases "k < mv_n_rows ks \<and> i < mv_n_cols ks")
  case True
  then show ?thesis using Export_cell_ok [OF assms, of ks nsd mc ct] by blast
next
  case False
  then have "get ks k i = Inl Out_Of_Range" by (simp add: get_def)
  then show ?thesis by (simp add: Export_cell_def)
qed

lemma Export_column_cases:
  assumes "same_frame r s" "i < n_cols (kpca_projections r)"
  shows "for_loop [0..<n_rows (kpca_projections r)] (Export_cell nsd mc ct ks i) s = Inl Out_Of_Range
       \<or> (\<exists>s'. for_loop [0..<n_rows (kpca_projections r)] (Export_cell nsd mc ct ks i) s = Inr s'
              \<and> same_frame r s')"
proof (rule for_loop_cases [where I = "same_frame r"])
  show "same_frame r s" by (rule assms(1))
next
  fix k t assume "k \<in> set [0..<n_rows (kpca_projections r)]" "same_frame r t"
  then show "Export_cell nsd mc ct ks i k t = Inl Out_Of_Range
       \<or> (\<exists>s'. Export_cell nsd mc ct ks i k t = Inr s' \<and> same_frame r s')"
    using Export_cell_cases [of r t k i nsd mc ct ks] assms(2) by simp
qed

lemma Export_column_fails:
  assumes "same_frame r s" "i < n_cols (kpca_projections r)" "k < n_rows (kpca_projections r)"
    and "\<not> (k < mv_n_rows ks \<and> i < mv_n_cols ks)"
  shows "for_loop [0..<n_rows (kpca_projections r)] (Export_cell nsd mc ct ks i) s = Inl Out_Of_Range"
proof (rule for_loop_fails [where I = "same_frame r" and j = k])
  show "same_frame r s" by (rule assms(1))
  show "k \<in> set [0..<n_rows (kpca_projections r)]" using assms(3) by simp
next
  fix t assume "same_frame r t"
  have "get ks k i = Inl Out_Of_Range" using assms(4) by (simp add: get_def)
  then show "Export_cell nsd mc ct ks i k t = Inl Out_Of_Range"
    by (simp add: Export_cell_def)
next
  fix j t assume "j \<in> set [0..<n_rows (kpca_projections r)]" "same_frame r t"
  then show "Export_cell nsd mc ct ks i j t = Inl Out_Of_Range
       \<or> (\<exists>s'. Export_cell nsd mc ct ks i j t = Inr s' \<and> same_frame r s')"
    using Export_cell_cases [of r t j i nsd mc ct ks] assms(2) by simp
qed

lemma Export_fails:
  assumes "bounds_allocated r" "\<not> covers ks (kpca_projections r)"
  shows "Export nsd mc ct ks r = Inl Out_Of_Range"
proof -
  let ?R = "n_rows (kpca_projections r)"
  let ?Q = "n_cols (kpca_projections r)"
  obtain k i where ki: "k < ?R" "i < ?Q" "\<not> (k < mv_n_rows ks \<and> i < mv_n_cols ks)"
    using assms(2) by (auto simp: covers_iff)
  have "for_loop [0..<?Q] (\<lambda>i. for_loop [0..<?R] (Export_cell nsd mc ct ks i)) r = Inl Out_Of_Range"
  proof (rule for_loop_fails [where I = "same_frame r" and j = i])
    show "same_frame r r" using assms(1) by (simp add: same_frame_def)
    show "i \<in> set [0..<?Q]" using ki(2) by simp
  next
    fix t assume "same_frame r t"
    then show "for_loop [0..<?R] (Export_cell nsd mc ct ks i) t = Inl Out_Of_Range"
      using Export_column_fails [of r t i k ks nsd mc ct] ki by simp
  next
    fix j t assume "j \<in> set [0..<?Q]" "same_frame r t"
    then show "for_loop [0..<?R] (Export_cell nsd mc ct ks j) t = Inl Out_Of_Range
       \<or> (\<exists>s'. for_loop [0..<?R] (Export_cell nsd mc ct ks j) t = Inr s' \<and> same_frame r s')"
      using Export_column_cases [of r t j nsd mc ct ks] by simp
  qed
  then show ?thesis by (simp add: Export_def)
qed



section \<open>Export: the stored bounds\<close>

lemma upt_2: "[0..<2] = [0, Suc 0]" by (simp add: upt_rec)
lemma replicate_2: "replicate 2 x = [x, x]" by (simp add: numeral_2_eq_2)

lemma Init_2_1:
  "Init fresh 2 R 1 r0 =
     r0\<lparr>kpca_projections_l := \<lparr>n_rows = 2, n_cols = 1, mem = [0, 0]\<rparr>,
        kpca_projections := \<lparr>n_rows = 2, n_cols = 1, mem = [0, 0]\<rparr>,
        kpca_projections_u := \<lparr>n_rows = 2, n_cols = 1, mem = [0, 0]\<rparr>\<rparr>"
  by (simp add: Init_def SetZero_def zeros_def set_size_def replicate_2)

lemma Init_1_1:
  "Init fresh 1 R 1 r0 =
     r0\<lparr>kpca_projections_l := \<lparr>n_rows = 1, n_cols = 1, mem = [0]\<rparr>,
        kpca_projections := \<lparr>n_rows = 1, n_cols = 1, mem = [0]\<rparr>,
        kpca_projections_u := \<lparr>n_rows = 1, n_cols = 1, mem = [0]\<rparr>\<rparr>"
  by (simp add: Init_def SetZero_def zeros_def set_size_def)

lemma bounds_allocated_Init: "bounds_allocated (Init fresh C R Q r)"
  by (simp add: bounds_allocated_def Init_def SetZero_def zeros_def set_size_def wf_mat_def)

lemma Export_ok_ordered:
  assumes "bounds_allocated r" "covers ks (kpca_projections r)" "0 \<le> nsd"
    and "\<forall>k<mv_n_rows ks. \<forall>i<mv_n_cols ks. 0 \<le> sample_mean_variance (mv_cell ks k i)"
  shows "\<exists>r'. Export nsd mc ct ks r = Inr r' \<and> same_frame r r' \<and>
           (\<forall>k<n_rows (kpca_projections r). \<forall>i<n_cols (kpca_projections r).
              (0 \<le> mc \<longrightarrow> le_at (kpca_projections_l r') (kpca_projections r') k i
                          \<and> le_at (kpca_projections r') (kpca_projections_u r') k i) \<and>
              (mc \<le> 0 \<longrightarrow> le_at (kpca_projections_u r') (kpca_projections r') k i
                          \<and> le_at (kpca_projections r') (kpca_projections_l r') k i))"
proof -
  obtain r' where r': "Export nsd mc ct ks r = Inr r'" "same_frame r r'"
    "\<And>k i. k < n_rows (kpca_projections r) \<Longrightarrow> i < n_cols (kpca_projections r)
       \<Longrightarrow> cell_ok nsd mc ct ks r' k i"
    using Export_ok [OF assms(1,2), of nsd mc ct] by blast
  have "(0 \<le> mc \<longrightarrow> le_at (kpca_projections_l r') (kpca_projections r') k i
                          \<and> le_at (kpca_projections r') (kpca_projections_u r') k i) \<and>
        (mc \<le> 0 \<longrightarrow> le_at (kpca_projections_u r') (kpca_projections r') k i
                          \<and> le_at (kpca_projections r') (kpca_projections_l r') k i)"
    if ki: "k < n_rows (kpca_projections r)" "i < n_cols (kpca_projections r)" for k i
  proof -
    have "k < mv_n_rows ks \<and> i < mv_n_cols ks"
      using assms(2) ki by (simp add: covers_iff)
    then have "0 \<le> sample_mean_variance (mv_cell ks k i)" using assms(4) by blast
    then have d: "0 \<le> nsd * sqrt (sample_mean_variance (mv_cell ks k i))"
      using assms(3) by simp
    let ?m = "sample_mean (mv_cell ks k i) - ct"
    let ?d = "nsd * sqrt (sample_mean_variance (mv_cell ks k i))"
    have lo: "?m - ?d \<le> ?m" and hi: "?m \<le> ?m + ?d" using d by simp_all
    have pos: "(?m - ?d) * mc \<le> ?m * mc" "?m * mc \<le> (?m + ?d) * mc" if "0 \<le> mc"
      using lo hi that by (simp_all only: mult_right_mono)
    have neg: "(?m + ?d) * mc \<le> ?m * mc" "?m * mc \<le> (?m - ?d) * mc" if "mc \<le> 0"
      using lo hi that by (simp_all only: mult_right_mono_neg)
    show ?thesis
      using r'(3) [OF ki] pos neg by (simp add: cell_ok_def le_at_def)
  qed
  then show ?thesis using r'(1,2) by blast
qed

text \<open>
  C1. For every component \<open>k\<close> and query point \<open>i\<close> within the extent of the bound
  matrices, \<open>Export nsd mc ct\<close> stores \<open>(mean k i - ct) * mc\<close> as the centre,
  \<open>(mean k i - ct - nsd * sqrt (variance k i)) * mc\<close> as the lower and
  \<open>(mean k i - ct + nsd * sqrt (variance k i)) * mc\<close> as the upper bound, and changes
  nothing else. In particular, on two components and one query point with means 10 and
  20, variances 4 and 1, \<open>nsd = 2\<close>, \<open>mc = 1\<close> and \<open>ct = 0\<close> it stores the centre
  \<open>[10, 20]\<close>, the lower bound \<open>[6, 18]\<close> and the upper bound \<open>[14, 22]\<close>.
\<close>

theorem Export_stores_bounds:
  "(bounds_allocated r \<and> covers ks (kpca_projections r) \<longrightarrow>
      (\<exists>r'. Export nsd mc ct ks r = Inr r' \<and> same_frame r r' \<and>
         (\<forall>k<n_rows (kpca_projections r). \<forall>i<n_cols (kpca_projections r).
            mat_at (kpca_projections r') k i = Inr ((sample_mean (mv_cell ks k i) - ct) * mc) \<and>
            mat_at (kpca_projections_l r') k i =
              Inr ((sample_mean (mv_cell ks k i) - ct
                     - nsd * sqrt (sample_mean_variance (mv_cell ks k i))) * mc) \<and>
            mat_at (kpca_projections_u r') k i =
              Inr ((sample_mean (mv_cell ks k i) - ct
                     + nsd * sqrt (sample_mean_variance (mv_cell ks k i))) * mc))))
   \<and> Export 2 1 0 scenario_stats (Init fresh 2 R 1 r0) =
       Inr ((Init fresh 2 R 1 r0)
         \<lparr>kpca_projections_l := \<lparr>n_rows = 2, n_cols = 1, mem = [6, 18]\<rparr>,
          kpca_projections := \<lparr>n_rows = 2, n_cols = 1, mem = [10, 20]\<rparr>,
          kpca_projections_u := \<lparr>n_rows = 2, n_cols = 1, mem = [14, 22]\<rparr>\<rparr>)"
proof (intro conjI impI)
  assume "bounds_allocated r \<and> covers ks (kpca_projections r)"
  then obtain r' where "Export nsd mc ct ks r = Inr r'" "same_frame r r'"
    "\<forall>k<n_rows (kpca_projections r). \<forall>i<n_cols (kpca_projections r). cell_ok nsd mc ct ks r' k i"
    using Export_ok [of r ks nsd mc ct] by blast
  then show "\<exists>r'. Export nsd mc ct ks r = Inr r' \<and> same_frame r r' \<and>
         (\<forall>k<n_rows (kpca_projections r). \<forall>i<n_cols (kpca_projections r).
            mat_at (kpca_projections r') k i = Inr ((sample_mean (mv_cell ks k i) - ct) * mc) \<and>
            mat_at (kpca_projections_l r') k i =
              Inr ((sample_mean (mv_cell ks k i) - ct
                     - nsd * sqrt (sample_mean_variance (mv_cell ks k i))) * mc) \<and>
            mat_at (kpca_projections_u r') k i =
              Inr ((sample_mean (mv_cell ks k i) - ct
                     + nsd * sqrt (sample_mean_variance (mv_cell ks k i))) * mc))"
    by (auto simp: cell_ok_def)
next
  show "Export 2 1 0 scenario_stats (Init fresh 2 R 1 r0) =
       Inr ((Init fresh 2 R 1 r0)
         \<lparr>kpca_projections_l := \<lparr>n_rows = 2, n_cols = 1, mem = [6, 18]\<rparr>,
          kpca_projections := \<lparr>n_rows = 2, n_cols = 1, mem = [10, 20]\<rparr>,
          kpca_projections_u := \<lparr>n_rows = 2, n_cols = 1, mem = [14, 22]\<rparr>\<rparr>)"
    by (simp add: Init_2_1 Export_def Export_cell_def scenario_stats_def get_def
        mat_at_put_def upt_2)
qed

theorem Export_stores_bounds_witness:
  "bounds_allocated (Init blank 1 0 1 KpcaResult_new)
   \<and> covers (uniform_stats 1 1 5 4) (kpca_projections (Init blank 1 0 1 KpcaResult_new))
   \<and> (\<exists>r'. Export 3 2 1 (uniform_stats 1 1 5 4) (Init blank 1 0 1 KpcaResult_new) = Inr r'
         \<and> mat_at (kpca_projections r') 0 0 = Inr 8
         \<and> mat_at (kpca_projections_l r') 0 0 = Inr (- 4)
         \<and> mat_at (kpca_projections_u r') 0 0 = Inr 20)"
proof -
  let ?r = "Init blank 1 0 1 KpcaResult_new"
  let ?ks = "uniform_stats 1 1 5 4"
  have b: "bounds_allocated ?r" by (rule bounds_allocated_Init)
  have c: "covers ?ks (kpca_projections ?r)"
    by (simp add: covers_def uniform_stats_def Init_1_1)
  have R: "n_rows (kpca_projections ?r) = 1" "n_cols (kpca_projections ?r) = 1"
    by (simp_all add: Init_1_1)
  show ?thesis
    using Export_stores_bounds [of ?r ?ks 3 2 1 blank 0 KpcaResult_new] b c
    by (auto simp: R uniform_stats_def)
qed

text \<open>
  C3. When every variance of the container is nonnegative, \<open>nsd \<ge> 0\<close> and \<open>mc \<ge> 0\<close>,
  the matrices stored by \<open>Export\<close> satisfy lower \<open>\<le>\<close> centre \<open>\<le>\<close> upper at every
  component and query point.
\<close>

theorem Export_ordered_nonneg:
  assumes "bounds_allocated r" "covers ks (kpca_projections r)" "0 \<le> nsd" "0 \<le> mc"
    and "\<forall>k<mv_n_rows ks. \<forall>i<mv_n_cols ks. 0 \<le> sample_mean_variance (mv_cell ks k i)"
  shows "\<exists>r'. Export nsd mc ct ks r = Inr r' \<and>
           n_rows (kpca_projections r') = n_rows (kpca_projections r) \<and>
           n_cols (kpca_projections r') = n_cols (kpca_projections r) \<and>
           (\<forall>k<n_rows (kpca_projections r). \<forall>i<n_cols (kpca_projections r).
              le_at (kpca_projections_l r') (kpca_projections r') k i \<and>
              le_at (kpca_projections r') (kpca_projections_u r') k i)"
  using Export_ok_ordered [OF assms(1,2,3,5), of mc ct] assms(4)
  by (auto simp: same_frame_def)

theorem Export_ordered_nonneg_witness:
  "bounds_allocated (Init blank 2 0 1 KpcaResult_new)
   \<and> covers scenario_stats (kpca_projections (Init blank 2 0 1 KpcaResult_new))
   \<and> (0::real) \<le> 2 \<and> (0::real) \<le> 3
   \<and> (\<exists>r'. Export 2 3 0 scenario_stats (Init blank 2 0 1 KpcaResult_new) = Inr r'
         \<and> le_at (kpca_projections_l r') (kpca_projections r') 1 0
         \<and> le_at (kpca_projections r') (kpca_projections_u r') 1 0)"
proof -
  let ?r = "Init blank 2 0 1 KpcaResult_new"
  have b: "bounds_allocated ?r" by (rule bounds_allocated_Init)
  have c: "covers scenario_stats (kpca_projections ?r)"
    by (simp add: covers_def scenario_stats_def Init_2_1)
  have v: "\<forall>k<mv_n_rows scenario_stats. \<forall>i<mv_n_cols scenario_stats.
             0 \<le> sample_mean_variance (mv_cell scenario_stats k i)"
    by (simp add: scenario_stats_def)
  have R: "n_rows (kpca_projections ?r) = 2" "n_cols (kpca_projections ?r) = 1"
    by (simp_all add: Init_2_1)
  show ?thesis
    using Export_ordered_nonneg [OF b c _ _ v, of 2 3 0] b c
    by (auto simp: R)
qed

text \<open>
  With a negative multiplicative constant the stored order is the other way round: for
  \<open>nsd = 1\<close>, mean 0, variance 1, \<open>ct = 0\<close> and \<open>mc = - 1\<close> the lower matrix holds 1,
  the centre 0 and the upper matrix \<open>- 1\<close>.
\<close>

theorem Export_negative_constant_counterexample:
  "(0::real) \<le> 1
   \<and> 0 \<le> sample_mean_variance (mv_cell (uniform_stats 1 1 0 1) 0 0)
   \<and> Export 1 (- 1) 0 (uniform_stats 1 1 0 1) (Init blank 1 0 1 KpcaResult_new) =
       Inr (KpcaResult_new
         \<lparr>kpca_projections_l := \<lparr>n_rows = 1, n_cols = 1, mem = [1]\<rparr>,
          kpca_projections := \<lparr>n_rows = 1, n_cols = 1, mem = [0]\<rparr>,
          kpca_projections_u := \<lparr>n_rows = 1, n_cols = 1, mem = [- 1]\<rparr>\<rparr>)
   \<and> \<not> le_at \<lparr>n_rows = 1, n_cols = 1, mem = [1]\<rparr> \<lparr>n_rows = 1, n_cols = 1, mem = [0]\<rparr> 0 0
   \<and> \<not> le_at \<lparr>n_rows = 1, n_cols = 1, mem = [0]\<rparr> \<lparr>n_rows = 1, n_cols = 1, mem = [- 1]\<rparr> 0 0"
  by (simp add: Init_1_1 Export_def Export_cell_def uniform_stats_def get_def mat_at_put_def
      le_at_def mat_at_def)

text \<open>
  C4, amended. After \<open>Export\<close> with \<open>nsd \<ge> 0\<close> and every variance nonnegative, at
  every component and query point lower \<open>\<le>\<close> centre \<open>\<le>\<close> upper holds when \<open>mc \<ge> 0\<close>, and
  upper \<open>\<le>\<close> centre \<open>\<le>\<close> lower holds when \<open>mc \<le> 0\<close>.
\<close>

theorem Export_ordered_by_sign:
  assumes "bounds_allocated r" "covers ks (kpca_projections r)" "0 \<le> nsd"
    and "\<forall>k<mv_n_rows ks. \<forall>i<mv_n_cols ks. 0 \<le> sample_mean_variance (mv_cell ks k i)"
  shows "\<exists>r'. Export nsd mc ct ks r = Inr r' \<and>
           (\<forall>k<n_rows (kpca_projections r). \<forall>i<n_cols (kpca_projections r).
              (0 \<le> mc \<longrightarrow> le_at (kpca_projections_l r') (kpca_projections r') k i
                          \<and> le_at (kpca_projections r') (kpca_projections_u r') k i) \<and>
              (mc \<le> 0 \<longrightarrow> le_at (kpca_projections_u r') (kpca_projections r') k i
                          \<and> le_at (kpca_projections r') (kpca_projections_l r') k i))"
  using Export_ok_ordered [OF assms, of mc ct] by blast

theorem Export_ordered_by_sign_witness:
  "bounds_allocated (Init blank 1 0 1 KpcaResult_new)
   \<and> covers (uniform_stats 1 1 0 1) (kpca_projections (Init blank 1 0 1 KpcaResult_new))
   \<and> (0::real) \<le> 1
   \<and> (\<exists>r'. Export 1 5 0 (uniform_stats 1 1 0 1) (Init blank 1 0 1 KpcaResult_new) = Inr r'
         \<and> le_at (kpca_projections_l r') (kpca_projections r') 0 0
         \<and> le_at (kpca_projections r') (kpca_projections_u r') 0 0)
   \<and> (\<exists>r'. Export 1 (- 1) 0 (uniform_stats 1 1 0 1) (Init blank 1 0 1 KpcaResult_new) = Inr r'
         \<and> le_at (kpca_projections_u r') (kpca_projections r') 0 0
         \<and> le_at (kpca_projections r') (kpca_projections_l r') 0 0)"
proof -
  let ?r = "Init blank 1 0 1 KpcaResult_new"
  let ?ks = "uniform_stats 1 1 0 1"
  have b: "bounds_allocated ?r" by (rule bounds_allocated_Init)
  have c: "covers ?ks (kpca_projections ?r)"
    by (simp add: covers_def uniform_stats_def Init_1_1)
  have v: "\<forall>k<mv_n_rows ?ks. \<forall>i<mv_n_cols ?ks. 0 \<le> sample_mean_variance (mv_cell ?ks k i)"
    by (simp add: uniform_stats_def)
  have R: "n_rows (kpca_projections ?r) = 1" "n_cols (kpca_projections ?r) = 1"
    by (simp_all add: Init_1_1)
  show ?thesis
    using Export_ordered_by_sign [OF b c _ v, of 1 5 0]
      Export_ordered_by_sign [OF b c _ v, of 1 "- 1" 0] b c
    by (auto simp: R)
qed

section \<open>Export: the extent of the statistics\<close>

text \<open>
  \<open>Export\<close> does not compare extents. Given a \<open>2 \<times> 2\<close> container and a \<open>1 \<times> 1\<close> result
  it proceeds, and returns the bounds of the element \<open>(0, 0)\<close>.
\<close>

theorem Export_mismatch_counterexample:
  "mv_n_rows (uniform_stats 2 2 10 4) \<noteq> n_rows (kpca_projections (Init blank 1 0 1 KpcaResult_new))
   \<and> mv_n_cols (uniform_stats 2 2 10 4) \<noteq> n_cols (kpca_projections (Init blank 1 0 1 KpcaResult_new))
   \<and> Export 2 1 0 (uniform_stats 2 2 10 4) (Init blank 1 0 1 KpcaResult_new) =
       Inr (KpcaResult_new
         \<lparr>kpca_projections_l := \<lparr>n_rows = 1, n_cols = 1, mem = [6]\<rparr>,
          kpca_projections := \<lparr>n_rows = 1, n_cols = 1, mem = [10]\<rparr>,
          kpca_projections_u := \<lparr>n_rows = 1, n_cols = 1, mem = [14]\<rparr>\<rparr>)"
  by (simp add: Init_1_1 Export_def Export_cell_def uniform_stats_def get_def mat_at_put_def)

text \<open>
  C5, amended. \<open>Export\<close> checks no shape and reports no mismatch. For every container
  whose extent covers the extent of the bound matrices, equal to it or larger, \<open>Export\<close>
  returns normally and leaves the extents and the other members as they were; for a
  container that does not cover it, \<open>Export\<close> indexes the container out of range.
\<close>

theorem Export_no_shape_check:
  assumes "bounds_allocated r"
  shows "(covers ks (kpca_projections r) \<longrightarrow>
            (\<exists>r'. Export nsd mc ct ks r = Inr r' \<and> same_frame r r'))
       \<and> (\<not> covers ks (kpca_projections r) \<longrightarrow> Export nsd mc ct ks r = Inl Out_Of_Range)"
  using Export_ok [OF assms, of ks nsd mc ct] Export_fails [OF assms, of ks nsd mc ct]
  by blast

theorem Export_no_shape_check_witness:
  "bounds_allocated (Init blank 1 0 1 KpcaResult_new)
   \<and> covers (uniform_stats 2 2 10 4) (kpca_projections (Init blank 1 0 1 KpcaResult_new))
   \<and> (\<exists>r'. Export 2 1 0 (uniform_stats 2 2 10 4) (Init blank 1 0 1 KpcaResult_new) = Inr r'
         \<and> same_frame (Init blank 1 0 1 KpcaResult_new) r')
   \<and> bounds_allocated (Init blank 2 0 1 KpcaResult_new)
   \<and> \<not> covers (uniform_stats 1 1 10 4) (kpca_projections (Init blank 2 0 1 KpcaResult_new))
   \<and> Export 2 1 0 (uniform_stats 1 1 10 4) (Init blank 2 0 1 KpcaResult_new) = Inl Out_Of_Range"
proof -
  let ?r1 = "Init blank 1 0 1 KpcaResult_new"
  let ?r2 = "Init blank 2 0 1 KpcaResult_new"
  have b: "bounds_allocated ?r1" "bounds_allocated ?r2" by (rule bounds_allocated_Init)+
  have c: "covers (uniform_stats 2 2 10 4) (kpca_projections ?r1)"
    by (simp add: covers_def uniform_stats_def Init_1_1)
  have n: "\<not> covers (uniform_stats 1 1 10 4) (kpca_projections ?r2)"
    by (simp add: covers_def uniform_stats_def Init_2_1)
  show ?thesis
    using Export_no_shape_check [OF b(1), of "uniform_stats 2 2 10 4" 2 1 0]
      Export_no_shape_check [OF b(2), of "uniform_stats 1 1 10 4" 2 1 0] b c n
    by simp
qed




section \<open>The loops of set_eigendecomposition_results\<close>

lemma mat_at_ok:
  assumes "wf_mat m" "k < n_rows m" "i < n_cols m"
  shows "\<exists>v. mat_at m k i = Inr v"
  using offset_less [OF assms(2,3)] assms(1) by (simp add: mat_at_def wf_mat_def)








section \<open>set_eigendecomposition_results: order and columns\<close>



















section \<open>Print\<close>

lemma print_columns_open:
  assumes "wf_mat m"
  shows "\<exists>fs'. print_columns fmt m (Some path) fs = Inr fs'"
proof -
  have row: "\<exists>fs'. for_loop [0..<n_rows m]
                 (\<lambda>j fs. case mat_at m j i of
                            Inl e \<Rightarrow> Inl e
                          | Inr v \<Rightarrow> fprintf (Some path) (fmt v @ '' '') fs) fs = Inr fs'
               \<and> True"
    if i: "i < n_cols m" for i fs
  proof (rule for_loop_inv [where P = "\<lambda>_ _. True"])
    fix j :: nat and t :: files
    assume "j \<in> set [0..<n_rows m]"
    then obtain v where "mat_at m j i = Inr v"
      using mat_at_ok [OF assms _ i, of j] by auto
    then show "\<exists>s'. (case mat_at m j i of
                            Inl e \<Rightarrow> Inl e
                          | Inr v \<Rightarrow> fprintf (Some path) (fmt v @ '' '') t) = Inr s' \<and> True"
      by (simp add: fprintf_def)
  qed simp
  have "\<exists>fs'. print_columns fmt m (Some path) fs = Inr fs' \<and> True"
    unfolding print_columns_def
  proof (rule for_loop_inv [where P = "\<lambda>_ _. True"])
    fix i :: nat and t :: files
    assume "i \<in> set [0..<n_cols m]"
    then obtain t' where "for_loop [0..<n_rows m]
                 (\<lambda>j fs. case mat_at m j i of
                            Inl e \<Rightarrow> Inl e
                          | Inr v \<Rightarrow> fprintf (Some path) (fmt v @ '' '') fs) t = Inr t'"
      using row [of i t] by auto
    then show "\<exists>s'. (case for_loop [0..<n_rows m]
                       (\<lambda>j fs. case mat_at m j i of
                                  Inl e \<Rightarrow> Inl e
                                | Inr v \<Rightarrow> fprintf (Some path) (fmt v @ '' '') fs)
                       t of
                  Inl e \<Rightarrow> Inl e
                | Inr fs' \<Rightarrow> fprintf (Some path) [CHR 0x0A] fs') = Inr s' \<and> True"
      by (simp add: fprintf_def)
  qed simp
  then show ?thesis by simp
qed

lemma print_columns_null:
  assumes "wf_mat m"
  shows "print_columns fmt m None fs = Inl Null_Stream \<or> (\<exists>fs'. print_columns fmt m None fs = Inr fs')"
proof -
  have row: "for_loop [0..<n_rows m]
                 (\<lambda>j fs. case mat_at m j i of
                            Inl e \<Rightarrow> Inl e
                          | Inr v \<Rightarrow> fprintf None (fmt v @ '' '') fs) fs = Inl Null_Stream
          \<or> (\<exists>fs'. for_loop [0..<n_rows m]
                 (\<lambda>j fs. case mat_at m j i of
                            Inl e \<Rightarrow> Inl e
                          | Inr v \<Rightarrow> fprintf None (fmt v @ '' '') fs) fs = Inr fs' \<and> True)"
    if i: "i < n_cols m" for i fs
  proof (rule for_loop_cases [where I = "\<lambda>_. True"])
    fix j :: nat and t :: files
    assume "j \<in> set [0..<n_rows m]"
    then obtain v where "mat_at m j i = Inr v"
      using mat_at_ok [OF assms _ i, of j] by auto
    then show "(case mat_at m j i of
                            Inl e \<Rightarrow> Inl e
                          | Inr v \<Rightarrow> fprintf None (fmt v @ '' '') t) = Inl Null_Stream
        \<or> (\<exists>s'. (case mat_at m j i of
                            Inl e \<Rightarrow> Inl e
                          | Inr v \<Rightarrow> fprintf None (fmt v @ '' '') t) = Inr s' \<and> True)"
      by (simp add: fprintf_def)
  qed simp
  have "print_columns fmt m None fs = Inl Null_Stream
      \<or> (\<exists>fs'. print_columns fmt m None fs = Inr fs' \<and> True)"
    unfolding print_columns_def
  proof (rule for_loop_cases [where I = "\<lambda>_. True"])
    fix i :: nat and t :: files
    assume "i \<in> set [0..<n_cols m]"
    then have "i < n_cols m" by simp
    from row [OF this, of t]
    show "(case for_loop [0..<n_rows m]
                       (\<lambda>j fs. case mat_at m j i of
                                  Inl e \<Rightarrow> Inl e
                                | Inr v \<Rightarrow> fprintf None (fmt v @ '' '') fs)
                       t of
                  Inl e \<Rightarrow> Inl e
                | Inr fs' \<Rightarrow> fprintf None [CHR 0x0A] fs') = Inl Null_Stream
        \<or> (\<exists>s'. (case for_loop [0..<n_rows m]
                       (\<lambda>j fs. case mat_at m j i of
                                  Inl e \<Rightarrow> Inl e
                                | Inr v \<Rightarrow> fprintf None (fmt v @ '' '') fs)
                       t of
                  Inl e \<Rightarrow> Inl e
                | Inr fs' \<Rightarrow> fprintf None [CHR 0x0A] fs') = Inr s' \<and> True)"
      by (auto simp: fprintf_def)
  qed simp
  then show ?thesis by simp
qed

text \<open>
  \<^verbatim>\<open>Print\<close> does not look at what \<^verbatim>\<open>fopen\<close> returns. When the projections file (or the
  components file) cannot be opened, the null stream goes to \<^verbatim>\<open>fprintf\<close> and
  \<^verbatim>\<open>fclose\<close>; the outcome is undefined behaviour, not an error that names a path.
\<close>

theorem Print_failed_open_counterexample:
  "\<not> can_open [''components.txt''] ''projections.txt''
   \<and> Print (can_open [''components.txt'']) digit_fmt ''components.txt'' ''projections.txt''
         emission_example no_files
       = Inl Null_Stream
   \<and> \<not> can_open [''projections.txt''] ''components.txt''
   \<and> Print (can_open [''projections.txt'']) digit_fmt ''components.txt'' ''projections.txt''
         emission_example no_files
       = Inl Null_Stream"
  by (simp add: Print_def fopen_w_def print_columns_def emission_example_def mat_at_def
      fprintf_def fclose_def can_open_def)

text \<open>
  C9, amended. For every call of \<^verbatim>\<open>Print\<close> where either destination cannot be opened
  for writing, the null stream returned by \<^verbatim>\<open>fopen\<close> is used unchecked (undefined
  behaviour); no error identifying the path is raised. When both destinations can be
  opened, \<^verbatim>\<open>Print\<close> returns normally.
\<close>

theorem Print_unchecked_open:
  assumes "wf_mat (kpca_projections r)" "wf_mat (kpca_components r)"
  shows "(\<not> openable ppath \<longrightarrow> Print openable fmt cpath ppath r fs = Inl Null_Stream)
       \<and> (openable ppath \<and> \<not> openable cpath \<longrightarrow> Print openable fmt cpath ppath r fs = Inl Null_Stream)
       \<and> (openable ppath \<and> openable cpath \<longrightarrow> (\<exists>fs'. Print openable fmt cpath ppath r fs = Inr fs'))"
proof (intro conjI impI)
  assume "\<not> openable ppath"
  then show "Print openable fmt cpath ppath r fs = Inl Null_Stream"
    using print_columns_null [OF assms(1), of fmt fs]
    by (auto simp: Print_def fopen_w_def fclose_def)
next
  assume a: "openable ppath \<and> \<not> openable cpath"
  obtain fs2 where fs2: "print_columns fmt (kpca_projections r) (Some ppath) (fs(ppath \<mapsto> [])) = Inr fs2"
    using print_columns_open [OF assms(1)] by blast
  show "Print openable fmt cpath ppath r fs = Inl Null_Stream"
    using a fs2 print_columns_null [OF assms(2), of fmt fs2]
    by (auto simp: Print_def fopen_w_def fclose_def)
next
  assume a: "openable ppath \<and> openable cpath"
  obtain fs2 where fs2: "print_columns fmt (kpca_projections r) (Some ppath) (fs(ppath \<mapsto> [])) = Inr fs2"
    using print_columns_open [OF assms(1)] by blast
  obtain fs5 where fs5: "print_columns fmt (kpca_components r) (Some cpath) (fs2(cpath \<mapsto> [])) = Inr fs5"
    using print_columns_open [OF assms(2)] by blast
  show "\<exists>fs'. Print openable fmt cpath ppath r fs = Inr fs'"
    using a fs2 fs5 by (simp add: Print_def fopen_w_def fclose_def)
qed

theorem Print_unchecked_open_witness:
  "wf_mat (kpca_projections emission_example) \<and> wf_mat (kpca_components emission_example)
   \<and> \<not> can_open [''components.txt''] ''projections.txt''
   \<and> Print (can_open [''components.txt'']) digit_fmt ''components.txt'' ''projections.txt''
         emission_example no_files
       = Inl Null_Stream
   \<and> can_open [''projections.txt''] ''projections.txt''
   \<and> \<not> can_open [''projections.txt''] ''components.txt''
   \<and> Print (can_open [''projections.txt'']) digit_fmt ''components.txt'' ''projections.txt''
         emission_example no_files
       = Inl Null_Stream
   \<and> can_open [''projections.txt'', ''components.txt''] ''projections.txt''
   \<and> can_open [''projections.txt'', ''components.txt''] ''components.txt''
   \<and> (\<exists>fs'. Print (can_open [''projections.txt'', ''components.txt'']) digit_fmt
               ''components.txt'' ''projections.txt'' emission_example no_files
             = Inr fs')"
proof -
  have w: "wf_mat (kpca_projections emission_example)" "wf_mat (kpca_components emission_example)"
    by (simp_all add: emission_example_def wf_mat_def)
  show ?thesis
    using Print_unchecked_open [OF w, of "can_open [''components.txt'']" "''projections.txt''"
        digit_fmt "''components.txt''" no_files]
      Print_unchecked_open [OF w, of "can_open [''projections.txt'']" "''projections.txt''"
        digit_fmt "''components.txt''" no_files]
      Print_unchecked_open [OF w, of "can_open [''projections.txt'', ''components.txt'']" "''projections.txt''"
        digit_fmt "''components.txt''" no_files]
      w
    by (simp add: can_open_def)
qed

section \<open>Serialization\<close>

lemma load_values_saved: "load_values (length vs) (map Value vs @ rest) = Inr (vs, rest)"
  by (induction vs) simp_all


lemma load_mat_saved:
  assumes "wf_mat m"
  shows "load_mat (save_mat m [] @ rest) = Inr (m, rest)"
  using assms load_values_saved [of "mem m" rest]
  by (simp add: load_mat_def save_mat_def wf_mat_def)

lemma load_vec_saved: "load_vec (save_vec v [] @ rest) = Inr (v, rest)"
  using load_values_saved [of v rest] by (simp add: load_vec_def save_vec_def)

lemma serialize_save_order:
  "serialize_save r ar =
     ar @ save_mat (kpca_projections_l r) [] @ save_mat (kpca_projections r) []
        @ save_mat (kpca_projections_u r) [] @ save_vec (kernel_eigenvalues r) []
        @ save_mat (covariance_eigenvectors r) []"
  by (simp add: serialize_save_def Let_def save_mat_def save_vec_def)

text \<open>
  C7. \<^verbatim>\<open>serialize\<close> transfers the lower, centre and upper bound matrices, the
  eigenvalues and the eigenvectors, in this order and nothing else. Loading what a
  populated result saved into a newly constructed result gives back these five members
  unchanged, and leaves the reference projections and the components empty, as the
  constructor made them; no item of the archive is left over.
\<close>

theorem serialize_round_trip:
  assumes "wf_mat (kpca_projections_l r)" "wf_mat (kpca_projections r)"
    "wf_mat (kpca_projections_u r)" "wf_mat (covariance_eigenvectors r)"
  shows "serialize_save r [] =
           save_mat (kpca_projections_l r) [] @ save_mat (kpca_projections r) []
           @ save_mat (kpca_projections_u r) [] @ save_vec (kernel_eigenvalues r) []
           @ save_mat (covariance_eigenvectors r) []
       \<and> serialize_load KpcaResult_new (serialize_save r []) =
           Inr (\<lparr>kpca_projections_l = kpca_projections_l r,
                 kpca_projections = kpca_projections r,
                 kpca_projections_u = kpca_projections_u r,
                 kernel_eigenvalues = kernel_eigenvalues r,
                 covariance_eigenvectors = covariance_eigenvectors r,
                 reference_projections = empty_mat,
                 kpca_components = empty_mat\<rparr>, [])"
proof
  show "serialize_save r [] =
           save_mat (kpca_projections_l r) [] @ save_mat (kpca_projections r) []
           @ save_mat (kpca_projections_u r) [] @ save_vec (kernel_eigenvalues r) []
           @ save_mat (covariance_eigenvectors r) []"
    by (simp add: serialize_save_order)
  have last: "load_mat (save_mat (covariance_eigenvectors r) [])
      = Inr (covariance_eigenvectors r, [])"
    using load_mat_saved [OF assms(4), of "[]"] by simp
  show "serialize_load KpcaResult_new (serialize_save r []) =
           Inr (\<lparr>kpca_projections_l = kpca_projections_l r,
                 kpca_projections = kpca_projections r,
                 kpca_projections_u = kpca_projections_u r,
                 kernel_eigenvalues = kernel_eigenvalues r,
                 covariance_eigenvectors = covariance_eigenvectors r,
                 reference_projections = empty_mat,
                 kpca_components = empty_mat\<rparr>, [])"
    unfolding serialize_save_order serialize_load_def
    by (simp add: load_mat_saved [OF assms(1)] load_mat_saved [OF assms(2)]
        load_mat_saved [OF assms(3)] load_vec_saved last
        KpcaResult_new_def SetZero_def zeros_def empty_mat_def)
qed

theorem serialize_round_trip_witness:
  "wf_mat (kpca_projections_l populated_example) \<and> wf_mat (kpca_projections populated_example)
   \<and> wf_mat (kpca_projections_u populated_example)
   \<and> wf_mat (covariance_eigenvectors populated_example)
   \<and> serialize_load KpcaResult_new (serialize_save populated_example []) =
       Inr (populated_example\<lparr>reference_projections := empty_mat, kpca_components := empty_mat\<rparr>,
            [])"
proof -
  have w: "wf_mat (kpca_projections_l populated_example)"
    "wf_mat (kpca_projections populated_example)"
    "wf_mat (kpca_projections_u populated_example)"
    "wf_mat (covariance_eigenvectors populated_example)"
    by (simp_all add: populated_example_def wf_mat_def)
  show ?thesis
    using serialize_round_trip [OF w, THEN conjunct2] w by (simp add: populated_example_def)
qed


section \<open>Init\<close>

lemma all_zero_set_size: "all_zero C Q (zeros (set_size fresh C Q m))"
proof -
  have "n_rows (set_size fresh C Q m) = C" "n_cols (set_size fresh C Q m) = Q"
    by (simp_all add: set_size_def)
  then show ?thesis
    unfolding all_zero_def using mat_at_zeros [of _ "set_size fresh C Q m"]
    by (simp add: zeros_def)
qed

lemma unat_of_nonneg_int:
  fixes w :: "32 word"
  assumes "0 \<le> sint w"
  shows "unat w = nat (sint w)"
proof -
  have nb: "\<not> bit (uint w) 31"
    using assms by (simp add: sint_uint)
  then have "signed_take_bit 31 (uint w) = take_bit 31 (uint w)"
    by (rule signed_take_bit_eq_if_positive)
  moreover have "take_bit 32 (uint w) = uint w"
    by (rule bintr_uint) simp
  moreover have "take_bit 32 (uint w) = take_bit 31 (uint w)"
    using nb take_bit_Suc_from_most [of 31 "uint w"] by simp
  ultimately have "sint w = uint w" by (simp add: sint_uint)
  then show ?thesis by simp
qed

text \<open>
  C8. For nonnegative \<open>C\<close>, \<open>R\<close>, \<open>Q\<close> and any prior state of the result (and whatever
  the resized memory held), after \<open>Init C R Q\<close> each of the three bound matrices has
  \<open>C\<close> rows and \<open>Q\<close> columns and every element is zero; a second \<open>Init\<close> with the same
  dimensions yields the same object again.
\<close>

theorem Init_shape_zero_idempotent:
  assumes "0 \<le> sint C" "0 \<le> sint R" "0 \<le> sint Q"
  shows "all_zero (nat (sint C)) (nat (sint Q)) (kpca_projections_l (Init fresh C R Q r))
       \<and> all_zero (nat (sint C)) (nat (sint Q)) (kpca_projections (Init fresh C R Q r))
       \<and> all_zero (nat (sint C)) (nat (sint Q)) (kpca_projections_u (Init fresh C R Q r))
       \<and> Init fresh' C R Q (Init fresh C R Q r) = Init fresh C R Q r"
proof -
  have C: "unat C = nat (sint C)" and Q: "unat Q = nat (sint Q)"
    using assms by (simp_all add: unat_of_nonneg_int)
  have idem: "Init fresh' C R Q (Init fresh C R Q r) = Init fresh C R Q r"
    by (simp add: Init_def SetZero_def zeros_def set_size_def)
  show ?thesis
    using all_zero_set_size [of "nat (sint C)" "nat (sint Q)" fresh] idem
    by (simp add: Init_def SetZero_def C Q)
qed

theorem Init_shape_zero_idempotent_witness:
  "0 \<le> sint (2 :: 32 word) \<and> 0 \<le> sint (5 :: 32 word) \<and> 0 \<le> sint (3 :: 32 word)
   \<and> all_zero 2 3 (kpca_projections_l (Init blank 2 5 3 emission_example))
   \<and> all_zero 2 3 (kpca_projections (Init blank 2 5 3 emission_example))
   \<and> all_zero 2 3 (kpca_projections_u (Init blank 2 5 3 emission_example))
   \<and> Init blank 2 5 3 (Init blank 2 5 3 emission_example) = Init blank 2 5 3 emission_example"
  using Init_shape_zero_idempotent [of 2 5 3 blank emission_example blank]
  by simp

end
